theory Spec2Isabelle
  imports Main "HOL-Library.Multiset" "HOL-Library.Char_ord" "HOL-Library.List_Lexorder"
begin

section \<open>Data model\<close>

text \<open>
  The two persisted tables. Identifiers are UUID strings, timestamps are counted in
  clock ticks. The field \<open>id\<close> of either table is written \<open>user_id\<close> and
  \<open>follow_id\<close>.
\<close>

record user =
  user_id :: string
  username :: string
  displayName :: "string option"
  user_createdAt :: nat

record follow =
  follow_id :: string
  followerId :: string
  followeeId :: string
  createdAt :: nat

record store =
  users :: "user list"
  follows :: "follow list"

text \<open>The projection \<open>select: {id, username, displayName}\<close> of a user row.\<close>

record user_summary =
  sum_id :: string
  sum_username :: string
  sum_displayName :: "string option"

definition select_user :: "user \<Rightarrow> user_summary" where
  "select_user u =
     \<lparr>sum_id = user_id u, sum_username = username u, sum_displayName = displayName u\<rparr>"

section \<open>Errors (utils/errors.ts)\<close>

text \<open>
  A thrown value is an \<open>AppError\<close> (status code, message, optional code), some other
  \<open>Error\<close> with its message, or a value that is no \<open>Error\<close> at all.
  \<open>AppError\<close> extends \<open>Error\<close>.
\<close>

datatype thrown =
  AppError nat string "string option"
| JsError string
| NonError

fun instanceof_Error :: "thrown \<Rightarrow> bool" where
  "instanceof_Error (AppError _ _ _) = True"
| "instanceof_Error (JsError _) = True"
| "instanceof_Error NonError = False"

fun message :: "thrown \<Rightarrow> string" where
  "message (AppError _ m _) = m"
| "message (JsError m) = m"
| "message NonError = []"

definition USER_NOT_FOUND :: string where "USER_NOT_FOUND = ''USER_NOT_FOUND''"
definition SELF_FOLLOW :: string where "SELF_FOLLOW = ''SELF_FOLLOW''"
definition DUPLICATE_FOLLOW :: string where "DUPLICATE_FOLLOW = ''DUPLICATE_FOLLOW''"
definition FOLLOW_NOT_FOUND :: string where "FOLLOW_NOT_FOUND = ''FOLLOW_NOT_FOUND''"
definition INVALID_INPUT :: string where "INVALID_INPUT = ''INVALID_INPUT''"
definition INTERNAL_ERROR :: string where "INTERNAL_ERROR = ''INTERNAL_ERROR''"

definition createError :: "nat \<Rightarrow> string \<Rightarrow> string \<Rightarrow> thrown" where
  "createError statusCode msg code = AppError statusCode msg (Some code)"

text \<open>\<open>String.prototype.includes\<close>: the pattern occurs as a contiguous piece.\<close>

fun startsWith :: "string \<Rightarrow> string \<Rightarrow> bool" where
  "startsWith _ [] = True"
| "startsWith [] (p # ps) = False"
| "startsWith (c # cs) (p # ps) = (c = p \<and> startsWith cs ps)"

fun str_includes :: "string \<Rightarrow> string \<Rightarrow> bool" where
  "str_includes [] pat = (pat = [])"
| "str_includes (c # cs) pat = (startsWith (c # cs) pat \<or> str_includes cs pat)"

section \<open>The relational store behind the Prisma client\<close>

text \<open>
  What one request cannot decide is given to it from outside: whether a call to the
  store fails (connection lost, timeout, ...) and with which message, the identifier
  \<open>gen_random_uuid()\<close> draws for a new row, the clock \<open>NOW()\<close>, and the order in
  which the store hands out rows that the \<open>ORDER BY\<close> of a query leaves equal.
\<close>

datatype store_call =
  User_findUnique string
| User_findMany
| Follow_create
| Follow_findUnique
| Follow_delete
| Follow_count
| Follow_findMany

record env =
  fault :: "store_call \<Rightarrow> string option"
  new_id :: string
  now :: nat
  tie_rank :: "follow \<Rightarrow> nat"

text \<open>
  Modelled from the spec: the messages of the errors the client throws when the
  database rejects a statement. The first is the one the test of the duplicate follow
  uses.
\<close>

definition unique_pair_msg :: string where
  "unique_pair_msg = ''Unique constraint failed on the fields: (`followerId`,`followeeId`)''"

definition unique_id_msg :: string where
  "unique_id_msg = ''Unique constraint failed on the fields: (`id`)''"

definition check_msg :: string where
  "check_msg = ''new row for relation \"Follow\" violates check constraint \"follow_no_self_follow\"''"

definition fk_msg :: string where
  "fk_msg = ''Foreign key constraint failed on the field''"

definition not_found_msg :: string where
  "not_found_msg = ''Record to delete does not exist.''"

definition inconsistent_msg :: string where
  "inconsistent_msg = ''Inconsistent query result: Field is required to return data, got `null` instead.''"

text \<open>
  The Prisma client module \<open>db/prisma\<close> and the schema it is generated from are not
  part of the sources. The store operations below follow section 4.1 of the
  specification and the table definitions of ARCHITECTURE.md: primary keys,
  \<open>UNIQUE(followerId, followeeId)\<close>, \<open>CHECK(followerId != followeeId)\<close>, foreign keys
  to the user table. A write that is rejected changes nothing.
\<close>

text \<open>Modelled from the spec: the indexed lookups of the two tables.\<close>

definition lookup_user :: "store \<Rightarrow> string \<Rightarrow> user option" where
  "lookup_user s uid = find (\<lambda>u. user_id u = uid) (users s)"

definition lookup_edge :: "store \<Rightarrow> string \<Rightarrow> string \<Rightarrow> follow option" where
  "lookup_edge s a b = find (\<lambda>f. followerId f = a \<and> followeeId f = b) (follows s)"

definition lookup_edge_id :: "store \<Rightarrow> string \<Rightarrow> follow option" where
  "lookup_edge_id s fid = find (\<lambda>f. follow_id f = fid) (follows s)"

text \<open>Modelled from the spec: \<open>prisma.user.findUnique({where: {id}})\<close>, the user with this identifier, if any.\<close>

definition user_findUnique :: "env \<Rightarrow> store \<Rightarrow> string \<Rightarrow> thrown + user option" where
  "user_findUnique env s uid =
     (case fault env (User_findUnique uid) of
        Some m \<Rightarrow> Inl (JsError m)
      | None \<Rightarrow> Inr (lookup_user s uid))"

text \<open>Modelled from the spec: \<open>prisma.user.findMany\<close> with \<open>orderBy: {username: 'asc'}\<close>, all users by handle.\<close>

definition user_findMany :: "env \<Rightarrow> store \<Rightarrow> thrown + user_summary list" where
  "user_findMany env s =
     (case fault env User_findMany of
        Some m \<Rightarrow> Inl (JsError m)
      | None \<Rightarrow> Inr (map select_user (sort_key username (users s))))"

text \<open>Modelled from the spec: \<open>prisma.follow.findUnique\<close> by the pair (source, target).\<close>

definition follow_findUnique :: "env \<Rightarrow> store \<Rightarrow> string \<Rightarrow> string \<Rightarrow> thrown + follow option" where
  "follow_findUnique env s a b =
     (case fault env Follow_findUnique of
        Some m \<Rightarrow> Inl (JsError m)
      | None \<Rightarrow> Inr (lookup_edge s a b))"

text \<open>Modelled from the spec: \<open>prisma.follow.create\<close>, one insert checked against every constraint of the edge table.\<close>

definition follow_create :: "env \<Rightarrow> store \<Rightarrow> string \<Rightarrow> string \<Rightarrow> (thrown + follow) \<times> store" where
  "follow_create env s a b =
     (case fault env Follow_create of
        Some m \<Rightarrow> (Inl (JsError m), s)
      | None \<Rightarrow>
          if a = b then (Inl (JsError check_msg), s)
          else if lookup_edge_id s (new_id env) \<noteq> None
            then (Inl (JsError unique_id_msg), s)
          else if lookup_edge s a b \<noteq> None
            then (Inl (JsError unique_pair_msg), s)
          else if lookup_user s a = None
            then (Inl (JsError fk_msg), s)
          else if lookup_user s b = None
            then (Inl (JsError fk_msg), s)
          else
            (let row = \<lparr>follow_id = new_id env, followerId = a, followeeId = b,
                        createdAt = now env\<rparr>
             in (Inr row, s\<lparr>follows := follows s @ [row]\<rparr>)))"

text \<open>Modelled from the spec: \<open>prisma.follow.delete({where: {id}})\<close>, which fails when no row has the identifier.\<close>

definition follow_delete :: "env \<Rightarrow> store \<Rightarrow> string \<Rightarrow> (thrown + follow) \<times> store" where
  "follow_delete env s fid =
     (case fault env Follow_delete of
        Some m \<Rightarrow> (Inl (JsError m), s)
      | None \<Rightarrow>
          (case lookup_edge_id s fid of
             None \<Rightarrow> (Inl (JsError not_found_msg), s)
           | Some row \<Rightarrow>
               (Inr row, s\<lparr>follows := filter (\<lambda>f. follow_id f \<noteq> fid) (follows s)\<rparr>)))"

text \<open>Modelled from the spec: \<open>prisma.follow.count\<close> of the edges whose given endpoint is the user.\<close>

definition follow_count :: "env \<Rightarrow> store \<Rightarrow> (follow \<Rightarrow> string) \<Rightarrow> string \<Rightarrow> thrown + nat" where
  "follow_count env s field uid =
     (case fault env Follow_count of
        Some m \<Rightarrow> Inl (JsError m)
      | None \<Rightarrow> Inr (length (filter (\<lambda>f. field f = uid) (follows s))))"

text \<open>
  Modelled from the spec: \<open>orderBy: {createdAt: 'desc'}\<close>, the newest first; rows
  created at the same tick come in the order the store picks for this query
  (\<open>tie_rank\<close>), since the query names no other key.
\<close>

definition order_createdAt_desc :: "env \<Rightarrow> follow list \<Rightarrow> follow list" where
  "order_createdAt_desc env rows =
     sort_key (\<lambda>f. - int (createdAt f)) (sort_key (tie_rank env) rows)"

text \<open>
  Modelled from the spec: \<open>include\<close> of a required relation with its \<open>select\<close>; every
  row comes with the user it refers to.
\<close>

fun include_user ::
  "store \<Rightarrow> (follow \<Rightarrow> string) \<Rightarrow> follow list \<Rightarrow> thrown + (follow \<times> user_summary) list" where
  "include_user s rel [] = Inr []"
| "include_user s rel (f # fs) =
     (case lookup_user s (rel f) of
        None \<Rightarrow> Inl (JsError inconsistent_msg)
      | Some u \<Rightarrow>
          (case include_user s rel fs of
             Inl e \<Rightarrow> Inl e
           | Inr rest \<Rightarrow> Inr ((f, select_user u) # rest)))"

text \<open>Modelled from the spec: \<open>prisma.follow.findMany\<close> with \<open>where\<close>, \<open>skip\<close>, \<open>take\<close>, \<open>include\<close> and \<open>orderBy: {createdAt: 'desc'}\<close>.\<close>

definition follow_findMany ::
  "env \<Rightarrow> store \<Rightarrow> (follow \<Rightarrow> string) \<Rightarrow> string \<Rightarrow> nat \<Rightarrow> nat \<Rightarrow> (follow \<Rightarrow> string)
     \<Rightarrow> thrown + (follow \<times> user_summary) list" where
  "follow_findMany env s field uid skip tk rel =
     (case fault env Follow_findMany of
        Some m \<Rightarrow> Inl (JsError m)
      | None \<Rightarrow>
          include_user s rel
            (take tk (drop skip
               (order_createdAt_desc env (filter (\<lambda>f. field f = uid) (follows s))))))"

text \<open>
  Modelled from the spec: the constraints of the schema (section 3 of the
  specification, the table definitions of ARCHITECTURE.md), as a predicate on a store.
\<close>

definition store_ok :: "store \<Rightarrow> bool" where
  "store_ok s =
     (distinct (map user_id (users s)) \<and>
      distinct (map username (users s)) \<and>
      distinct (map follow_id (follows s)) \<and>
      distinct (map (\<lambda>f. (followerId f, followeeId f)) (follows s)) \<and>
      list_all (\<lambda>f. followerId f \<noteq> followeeId f) (follows s) \<and>
      list_all (\<lambda>f. lookup_user s (followerId f) \<noteq> None) (follows s) \<and>
      list_all (\<lambda>f. lookup_user s (followeeId f) \<noteq> None) (follows s))"

section \<open>The follow service (services/follow.service.ts)\<close>

record FollowRequest =
  req_followerId :: string
  req_followeeId :: string

record Pagination =
  limit :: nat
  offset :: nat

record page =
  total :: nat
  items :: "user_summary list"

text \<open>
  \<open>Promise.all\<close> of two calls: both results, or a failure. When both calls fail the
  one that is listed first is taken; the calls here only read, so nothing else depends
  on which of them fails first.
\<close>

definition Promise_all :: "thrown + 'a \<Rightarrow> thrown + 'b \<Rightarrow> thrown + ('a \<times> 'b)" where
  "Promise_all p q =
     (case p of
        Inl e \<Rightarrow> Inl e
      | Inr x \<Rightarrow> (case q of Inl e \<Rightarrow> Inl e | Inr y \<Rightarrow> Inr (x, y)))"

definition followUser :: "env \<Rightarrow> store \<Rightarrow> FollowRequest \<Rightarrow> (thrown + string) \<times> store" where
  "followUser env s request =
     (let a = req_followerId request; b = req_followeeId request in
      if a = b then (Inl (createError 400 ''Cannot follow yourself'' SELF_FOLLOW), s)
      else
        (case Promise_all (user_findUnique env s a) (user_findUnique env s b) of
           Inl e \<Rightarrow> (Inl e, s)
         | Inr (followerExists, followeeExists) \<Rightarrow>
             if followerExists = None
               then (Inl (createError 404 ''Follower user not found'' USER_NOT_FOUND), s)
             else if followeeExists = None
               then (Inl (createError 404 ''Followee user not found'' USER_NOT_FOUND), s)
             else
               (case follow_create env s a b of
                  (Inr row, s') \<Rightarrow> (Inr (follow_id row), s')
                | (Inl error, s') \<Rightarrow>
                    if instanceof_Error error
                       \<and> str_includes (message error) ''Unique constraint failed''
                      then (Inl (createError 409 ''Already following this user''
                                   DUPLICATE_FOLLOW), s')
                    else (Inl error, s'))))"

definition unfollowUser :: "env \<Rightarrow> store \<Rightarrow> FollowRequest \<Rightarrow> (thrown + unit) \<times> store" where
  "unfollowUser env s request =
     (let a = req_followerId request; b = req_followeeId request in
      case follow_findUnique env s a b of
        Inl e \<Rightarrow> (Inl e, s)
      | Inr None \<Rightarrow>
          (Inl (createError 404 ''Follow relationship not found'' FOLLOW_NOT_FOUND), s)
      | Inr (Some row) \<Rightarrow>
          (case follow_delete env s (follow_id row) of
             (Inl e, s') \<Rightarrow> (Inl e, s')
           | (Inr _, s') \<Rightarrow> (Inr (), s')))"

definition getFollowers :: "env \<Rightarrow> store \<Rightarrow> string \<Rightarrow> Pagination \<Rightarrow> (thrown + page) \<times> store" where
  "getFollowers env s userId pagination =
     (case user_findUnique env s userId of
        Inl e \<Rightarrow> (Inl e, s)
      | Inr None \<Rightarrow> (Inl (createError 404 ''User not found'' USER_NOT_FOUND), s)
      | Inr (Some _) \<Rightarrow>
          (case Promise_all
                  (follow_count env s followeeId userId)
                  (follow_findMany env s followeeId userId
                     (offset pagination) (limit pagination) followerId) of
             Inl e \<Rightarrow> (Inl e, s)
           | Inr (n, followers) \<Rightarrow> (Inr \<lparr>total = n, items = map snd followers\<rparr>, s)))"

definition getFollowing :: "env \<Rightarrow> store \<Rightarrow> string \<Rightarrow> Pagination \<Rightarrow> (thrown + page) \<times> store" where
  "getFollowing env s userId pagination =
     (case user_findUnique env s userId of
        Inl e \<Rightarrow> (Inl e, s)
      | Inr None \<Rightarrow> (Inl (createError 404 ''User not found'' USER_NOT_FOUND), s)
      | Inr (Some _) \<Rightarrow>
          (case Promise_all
                  (follow_count env s followerId userId)
                  (follow_findMany env s followerId userId
                     (offset pagination) (limit pagination) followeeId) of
             Inl e \<Rightarrow> (Inl e, s)
           | Inr (n, following) \<Rightarrow> (Inr \<lparr>total = n, items = map snd following\<rparr>, s)))"

definition getAllUsers :: "env \<Rightarrow> store \<Rightarrow> (thrown + user_summary list) \<times> store" where
  "getAllUsers env s = (user_findMany env s, s)"

definition getFollowerCount :: "env \<Rightarrow> store \<Rightarrow> string \<Rightarrow> (thrown + nat) \<times> store" where
  "getFollowerCount env s userId =
     (case user_findUnique env s userId of
        Inl e \<Rightarrow> (Inl e, s)
      | Inr None \<Rightarrow> (Inl (createError 404 ''User not found'' USER_NOT_FOUND), s)
      | Inr (Some _) \<Rightarrow> (follow_count env s followeeId userId, s))"

definition getFollowingCount :: "env \<Rightarrow> store \<Rightarrow> string \<Rightarrow> (thrown + nat) \<times> store" where
  "getFollowingCount env s userId =
     (case user_findUnique env s userId of
        Inl e \<Rightarrow> (Inl e, s)
      | Inr None \<Rightarrow> (Inl (createError 404 ''User not found'' USER_NOT_FOUND), s)
      | Inr (Some _) \<Rightarrow> (follow_count env s followerId userId, s))"

definition isFollowing :: "env \<Rightarrow> store \<Rightarrow> string \<Rightarrow> string \<Rightarrow> (thrown + bool) \<times> store" where
  "isFollowing env s a b =
     (case follow_findUnique env s a b of
        Inl e \<Rightarrow> (Inl e, s)
      | Inr row \<Rightarrow> (Inr (row \<noteq> None), s))"

section \<open>HTTP layer (middleware/errorHandler.ts, controllers/follow.controller.ts)\<close>

datatype payload =
  Created string
| PageData page
| UsersData "user_summary list"
| CountData nat
| IsFollowingData bool

text \<open>The JSON body of a response with its status; an absent field is \<open>None\<close>.\<close>

record response =
  res_status :: nat
  res_success :: bool
  res_message :: "string option"
  res_code :: "string option"
  res_data :: "payload option"

text \<open>What \<open>errorHandler\<close> sends; its writes to the console are not part of the response.\<close>

fun errorHandler :: "thrown \<Rightarrow> response" where
  "errorHandler (AppError statusCode msg code) =
     \<lparr>res_status = statusCode, res_success = False, res_message = Some msg,
      res_code = code, res_data = None\<rparr>"
| "errorHandler _ =
     \<lparr>res_status = 500, res_success = False,
      res_message = Some ''Internal server error'',
      res_code = Some ''INTERNAL_ERROR'', res_data = None\<rparr>"

text \<open>\<open>asyncHandler\<close> passes a rejection on to \<open>errorHandler\<close>.\<close>

definition asyncHandler :: "(thrown + response) \<times> store \<Rightarrow> response \<times> store" where
  "asyncHandler r =
     (case r of
        (Inl err, s) \<Rightarrow> (errorHandler err, s)
      | (Inr res, s) \<Rightarrow> (res, s))"

definition ok_response :: "nat \<Rightarrow> string option \<Rightarrow> payload option \<Rightarrow> response" where
  "ok_response st msg d =
     \<lparr>res_status = st, res_success = True, res_message = msg, res_code = None,
      res_data = d\<rparr>"

text \<open>
  The zod schemas are a library's: a controller is given what \<open>parse\<close> returned, the
  validated value or the error it threw.
\<close>

definition follow_controller ::
  "env \<Rightarrow> store \<Rightarrow> thrown + FollowRequest \<Rightarrow> response \<times> store" where
  "follow_controller env s parsed =
     asyncHandler
       (case parsed of
          Inl e \<Rightarrow> (Inl e, s)
        | Inr validatedData \<Rightarrow>
            (case followUser env s validatedData of
               (Inl e, s') \<Rightarrow> (Inl e, s')
             | (Inr result, s') \<Rightarrow>
                 (Inr (ok_response 201 (Some ''User followed successfully'')
                         (Some (Created result))), s')))"

definition unfollow_controller ::
  "env \<Rightarrow> store \<Rightarrow> thrown + FollowRequest \<Rightarrow> response \<times> store" where
  "unfollow_controller env s parsed =
     asyncHandler
       (case parsed of
          Inl e \<Rightarrow> (Inl e, s)
        | Inr validatedData \<Rightarrow>
            (case unfollowUser env s validatedData of
               (Inl e, s') \<Rightarrow> (Inl e, s')
             | (Inr _, s') \<Rightarrow>
                 (Inr (ok_response 200 (Some ''User unfollowed successfully'') None), s')))"

definition getFollowers_controller ::
  "env \<Rightarrow> store \<Rightarrow> string \<Rightarrow> thrown + Pagination \<Rightarrow> response \<times> store" where
  "getFollowers_controller env s userId parsed =
     asyncHandler
       (case parsed of
          Inl e \<Rightarrow> (Inl e, s)
        | Inr pagination \<Rightarrow>
            (case getFollowers env s userId pagination of
               (Inl e, s') \<Rightarrow> (Inl e, s')
             | (Inr result, s') \<Rightarrow>
                 (Inr (ok_response 200 None (Some (PageData result))), s')))"

definition getFollowing_controller ::
  "env \<Rightarrow> store \<Rightarrow> string \<Rightarrow> thrown + Pagination \<Rightarrow> response \<times> store" where
  "getFollowing_controller env s userId parsed =
     asyncHandler
       (case parsed of
          Inl e \<Rightarrow> (Inl e, s)
        | Inr pagination \<Rightarrow>
            (case getFollowing env s userId pagination of
               (Inl e, s') \<Rightarrow> (Inl e, s')
             | (Inr result, s') \<Rightarrow>
                 (Inr (ok_response 200 None (Some (PageData result))), s')))"

definition getAllUsers_controller :: "env \<Rightarrow> store \<Rightarrow> response \<times> store" where
  "getAllUsers_controller env s =
     asyncHandler
       (case getAllUsers env s of
          (Inr us, s') \<Rightarrow> (Inr (ok_response 200 None (Some (UsersData us))), s')
        | (Inl err, s') \<Rightarrow>
            if instanceof_Error err then
              (Inl (createError 500
                      (if message err \<noteq> [] then message err else ''Failed to fetch users'')
                      INTERNAL_ERROR), s')
            else (Inl (createError 500 ''Failed to fetch users'' INTERNAL_ERROR), s'))"

definition getFollowerCount_controller :: "env \<Rightarrow> store \<Rightarrow> string \<Rightarrow> response \<times> store" where
  "getFollowerCount_controller env s userId =
     asyncHandler
       (case getFollowerCount env s userId of
          (Inl e, s') \<Rightarrow> (Inl e, s')
        | (Inr n, s') \<Rightarrow> (Inr (ok_response 200 None (Some (CountData n))), s'))"

definition getFollowingCount_controller :: "env \<Rightarrow> store \<Rightarrow> string \<Rightarrow> response \<times> store" where
  "getFollowingCount_controller env s userId =
     asyncHandler
       (case getFollowingCount env s userId of
          (Inl e, s') \<Rightarrow> (Inl e, s')
        | (Inr n, s') \<Rightarrow> (Inr (ok_response 200 None (Some (CountData n))), s'))"

text \<open>A query parameter that is not a string is \<open>None\<close>.\<close>

definition isFollowing_controller ::
  "env \<Rightarrow> store \<Rightarrow> string option \<Rightarrow> string option \<Rightarrow> response \<times> store" where
  "isFollowing_controller env s qFollowerId qFolloweeId =
     asyncHandler
       (case (qFollowerId, qFolloweeId) of
          (Some a, Some b) \<Rightarrow>
            (case isFollowing env s a b of
               (Inl e, s') \<Rightarrow> (Inl e, s')
             | (Inr r, s') \<Rightarrow>
                 (Inr (ok_response 200 None (Some (IsFollowingData r))), s'))
        | _ \<Rightarrow>
            (Inr \<lparr>res_status = 400, res_success = False,
                  res_message =
                    Some ''followerId and followeeId query parameters are required'',
                  res_code = None, res_data = None\<rparr>, s))"

section \<open>Sample data\<close>

definition alice :: user where
  "alice = \<lparr>user_id = ''11111111-1111-1111-1111-111111111111'', username = ''alice'',
            displayName = Some ''Alice'', user_createdAt = 1\<rparr>"

definition bob :: user where
  "bob = \<lparr>user_id = ''22222222-2222-2222-2222-222222222222'', username = ''bob'',
          displayName = Some ''Bob'', user_createdAt = 2\<rparr>"

definition carol :: user where
  "carol = \<lparr>user_id = ''33333333-3333-3333-3333-333333333333'', username = ''carol'',
            displayName = Some ''Carol'', user_createdAt = 3\<rparr>"

definition aid :: string where "aid = user_id alice"
definition bid :: string where "bid = user_id bob"
definition cid :: string where "cid = user_id carol"

text \<open>An identifier no user has.\<close>

definition ghost :: string where "ghost = ''99999999-9999-9999-9999-999999999999''"

definition no_fault :: "store_call \<Rightarrow> string option" where
  "no_fault c = None"

definition calm :: env where
  "calm = \<lparr>fault = no_fault, new_id = ''f0000000-0000-0000-0000-000000000009'', now = 10,
           tie_rank = (\<lambda>f. 0)\<rparr>"

definition seeded :: store where
  "seeded = \<lparr>users = [alice, bob, carol], follows = []\<rparr>"

definition edge_ab :: follow where
  "edge_ab = \<lparr>follow_id = ''f0000000-0000-0000-0000-000000000001'', followerId = aid,
              followeeId = bid, createdAt = 5\<rparr>"

definition with_ab :: store where
  "with_ab = \<lparr>users = [alice, bob, carol], follows = [edge_ab]\<rparr>"

definition edge_new :: follow where
  "edge_new = \<lparr>follow_id = new_id calm, followerId = aid, followeeId = bid,
               createdAt = now calm\<rparr>"

definition followed :: store where
  "followed = \<lparr>users = [alice, bob, carol], follows = [edge_new]\<rparr>"

text \<open>Two followers of carol whose edges were created at the same tick.\<close>

definition edge_ac :: follow where
  "edge_ac = \<lparr>follow_id = ''f0000000-0000-0000-0000-000000000002'', followerId = aid,
              followeeId = cid, createdAt = 7\<rparr>"

definition edge_bc :: follow where
  "edge_bc = \<lparr>follow_id = ''f0000000-0000-0000-0000-000000000003'', followerId = bid,
              followeeId = cid, createdAt = 7\<rparr>"

definition tied :: store where
  "tied = \<lparr>users = [alice, bob, carol], follows = [edge_ac, edge_bc]\<rparr>"

definition rank_ac_first :: "follow \<Rightarrow> nat" where
  "rank_ac_first f = (if follow_id f = follow_id edge_ac then 0 else 1)"

definition rank_bc_first :: "follow \<Rightarrow> nat" where
  "rank_bc_first f = (if follow_id f = follow_id edge_bc then 0 else 1)"

definition env_ac_first :: env where
  "env_ac_first = calm\<lparr>tie_rank := rank_ac_first\<rparr>"

definition env_bc_first :: env where
  "env_bc_first = calm\<lparr>tie_rank := rank_bc_first\<rparr>"

definition first_page :: Pagination where
  "first_page = \<lparr>limit = 1, offset = 0\<rparr>"

definition second_page :: Pagination where
  "second_page = \<lparr>limit = 1, offset = 1\<rparr>"

text \<open>A store that fails every call, or only the insert, with the given message.\<close>

definition outage :: "string \<Rightarrow> env" where
  "outage m = calm\<lparr>fault := (\<lambda>c. Some m)\<rparr>"

definition write_outage :: "string \<Rightarrow> env" where
  "write_outage m = calm\<lparr>fault := (\<lambda>c. if c = Follow_create then Some m else None)\<rparr>"

definition refused :: string where
  "refused = ''connect ECONNREFUSED 10.0.0.5:5432''"

definition auth_failed :: string where
  "auth_failed = ''password authentication failed for user \"follow_admin\"''"

definition terminated :: string where
  "terminated = ''Connection terminated unexpectedly''"

section \<open>Vocabulary of the statements\<close>

definition followers_of :: "store \<Rightarrow> string \<Rightarrow> follow list" where
  "followers_of s u = filter (\<lambda>f. followeeId f = u) (follows s)"

definition edges_between :: "store \<Rightarrow> string \<Rightarrow> string \<Rightarrow> follow list" where
  "edges_between s a b = filter (\<lambda>f. followerId f = a \<and> followeeId f = b) (follows s)"

definition self_follow :: thrown where
  "self_follow = AppError 400 ''Cannot follow yourself'' (Some ''SELF_FOLLOW'')"

definition follower_not_found :: thrown where
  "follower_not_found = AppError 404 ''Follower user not found'' (Some ''USER_NOT_FOUND'')"

definition followee_not_found :: thrown where
  "followee_not_found = AppError 404 ''Followee user not found'' (Some ''USER_NOT_FOUND'')"

definition duplicate_follow :: thrown where
  "duplicate_follow = AppError 409 ''Already following this user'' (Some ''DUPLICATE_FOLLOW'')"

definition follow_not_found :: thrown where
  "follow_not_found =
     AppError 404 ''Follow relationship not found'' (Some ''FOLLOW_NOT_FOUND'')"

definition not_found :: thrown where
  "not_found = AppError 404 ''User not found'' (Some ''USER_NOT_FOUND'')"

definition generic_500 :: response where
  "generic_500 =
     \<lparr>res_status = 500, res_success = False, res_message = Some ''Internal server error'',
      res_code = Some ''INTERNAL_ERROR'', res_data = None\<rparr>"

text \<open>The signal the catch block of \<open>followUser\<close> takes for a duplicate.\<close>

definition classified_unique :: "thrown \<Rightarrow> bool" where
  "classified_unique e =
     (instanceof_Error e \<and> str_includes (message e) ''Unique constraint failed'')"

section \<open>Lemmas on lists and on the store\<close>

lemmas sample_defs = seeded_def with_ab_def followed_def edge_ab_def edge_new_def calm_def
  no_fault_def aid_def bid_def cid_def ghost_def alice_def bob_def carol_def

lemmas tied_defs = tied_def edge_ac_def edge_bc_def env_ac_first_def env_bc_first_def
  rank_ac_first_def rank_bc_first_def first_page_def second_page_def

lemmas error_defs = createError_def USER_NOT_FOUND_def SELF_FOLLOW_def DUPLICATE_FOLLOW_def
  FOLLOW_NOT_FOUND_def INTERNAL_ERROR_def self_follow_def follower_not_found_def
  followee_not_found_def duplicate_follow_def follow_not_found_def not_found_def

lemmas service_defs = followUser_def unfollowUser_def isFollowing_def Promise_all_def
  user_findUnique_def follow_findUnique_def follow_create_def follow_delete_def
  lookup_user_def lookup_edge_def lookup_edge_id_def unique_pair_msg_def unique_id_msg_def
  classified_unique_def Let_def

lemmas read_defs = getFollowers_def getFollowing_def getFollowerCount_def
  getFollowingCount_def getAllUsers_def follow_count_def follow_findMany_def
  user_findMany_def order_createdAt_desc_def select_user_def

lemma find_Some_mem: "find P xs = Some x \<Longrightarrow> x \<in> set xs \<and> P x"
  by (auto simp: find_Some_iff)

lemma find_append_None:
  "find P xs = None \<Longrightarrow> find P (xs @ [x]) = (if P x then Some x else None)"
  by (induction xs) auto

lemma find_None_filter_id:
  "find (\<lambda>f. k f = i) xs = None \<Longrightarrow> filter (\<lambda>f. k f \<noteq> i) xs = xs"
  by (auto simp: find_None_iff filter_id_conv)

lemma filter_key_remove1:
  "distinct (map k xs) \<Longrightarrow> x \<in> set xs \<Longrightarrow> filter (\<lambda>y. k y \<noteq> k x) xs = remove1 x xs"
proof (induction xs)
  case Nil
  then show ?case by simp
next
  case (Cons y ys)
  show ?case
  proof (cases "y = x")
    case True
    with Cons.prems have "k x \<notin> k ` set ys" by simp
    then have "\<forall>z\<in>set ys. k z \<noteq> k x" by (metis imageI)
    then have "filter (\<lambda>z. k z \<noteq> k x) ys = ys" by (simp add: filter_id_conv)
    with True show ?thesis by simp
  next
    case False
    with Cons.prems have "x \<in> set ys" and "k y \<noteq> k x" by auto
    with Cons show ?thesis using False by simp
  qed
qed

lemma distinct_key_count_le:
  "distinct (map k xs) \<Longrightarrow> length (filter (\<lambda>x. k x = v) xs) \<le> 1"
proof (induction xs)
  case Nil
  then show ?case by simp
next
  case (Cons y ys)
  show ?case
  proof (cases "k y = v")
    case True
    with Cons.prems have "v \<notin> k ` set ys" by auto
    then have "\<forall>z\<in>set ys. k z \<noteq> v" by (metis imageI)
    then have "filter (\<lambda>x. k x = v) ys = []" by (simp add: filter_empty_conv)
    with True show ?thesis by simp
  next
    case False
    with Cons show ?thesis by simp
  qed
qed

text \<open>Under the uniqueness constraint an edge that is there is there once.\<close>

lemma edge_count_one:
  assumes "store_ok s" and "lookup_edge s a b \<noteq> None"
  shows "length (edges_between s a b) = 1"
proof -
  let ?k = "\<lambda>f. (followerId f, followeeId f)"
  let ?n = "length (filter (\<lambda>f. followerId f = a \<and> followeeId f = b) (follows s))"
  from assms(1) have "distinct (map ?k (follows s))" by (simp add: store_ok_def)
  then have "length (filter (\<lambda>f. ?k f = (a, b)) (follows s)) \<le> 1"
    by (rule distinct_key_count_le)
  then have le: "?n \<le> 1" by simp
  from assms(2) obtain row where f: "lookup_edge s a b = Some row" by blast
  then have "find (\<lambda>f. followerId f = a \<and> followeeId f = b) (follows s) = Some row"
    by (simp add: lookup_edge_def)
  from find_Some_mem [OF this]
  have "row \<in> set (follows s)" and "followerId row = a \<and> followeeId row = b"
    by simp_all
  then have "row \<in> set (filter (\<lambda>f. followerId f = a \<and> followeeId f = b) (follows s))"
    by simp
  then have "0 < ?n" by (rule length_pos_if_in_set)
  with le have "?n = 1" by linarith
  then show ?thesis by (simp only: edges_between_def)
qed

text \<open>An edge refers to users that exist, so a missing user has no edge.\<close>

lemma no_user_no_edge:
  assumes "store_ok s" and "lookup_user s u = None"
  shows "lookup_edge s u v = None" and "lookup_edge s v u = None"
proof -
  from assms(1) have fk1: "\<forall>f\<in>set (follows s). lookup_user s (followerId f) \<noteq> None"
    and fk2: "\<forall>f\<in>set (follows s). lookup_user s (followeeId f) \<noteq> None"
    by (simp_all add: store_ok_def list_all_iff)
  show "lookup_edge s u v = None"
  proof (rule ccontr)
    assume "lookup_edge s u v \<noteq> None"
    then obtain row
      where "find (\<lambda>f. followerId f = u \<and> followeeId f = v) (follows s) = Some row"
      by (auto simp: lookup_edge_def)
    from find_Some_mem [OF this] have "row \<in> set (follows s)" "followerId row = u"
      by simp_all
    with fk1 assms(2) show False by auto
  qed
  show "lookup_edge s v u = None"
  proof (rule ccontr)
    assume "lookup_edge s v u \<noteq> None"
    then obtain row
      where "find (\<lambda>f. followerId f = v \<and> followeeId f = u) (follows s) = Some row"
      by (auto simp: lookup_edge_def)
    from find_Some_mem [OF this] have "row \<in> set (follows s)" "followeeId row = u"
      by simp_all
    with fk2 assms(2) show False by auto
  qed
qed

text \<open>The outcomes of the insert: an error of the store and nothing changed, or the new row.\<close>

lemma follow_create_cases:
  "follow_create env s a b = (r, s') \<Longrightarrow>
     (case r of
        Inl e \<Rightarrow> s' = s \<and> (\<exists>m. e = JsError m)
      | Inr row \<Rightarrow>
          row = \<lparr>follow_id = new_id env, followerId = a, followeeId = b,
                 createdAt = now env\<rparr>
          \<and> s' = s\<lparr>follows := follows s @ [row]\<rparr>
          \<and> fault env Follow_create = None
          \<and> a \<noteq> b
          \<and> lookup_edge_id s (new_id env) = None
          \<and> lookup_edge s a b = None
          \<and> lookup_user s a \<noteq> None \<and> lookup_user s b \<noteq> None)"
  by (auto simp: follow_create_def Let_def split: option.splits if_splits)

lemma includes_pair: "str_includes unique_pair_msg ''Unique constraint failed''"
  by (simp add: unique_pair_msg_def)

lemma includes_id: "str_includes unique_id_msg ''Unique constraint failed''"
  by (simp add: unique_id_msg_def)

lemma follow_create_duplicate:
  assumes "a \<noteq> b" and "lookup_edge s a b \<noteq> None" and "fault env Follow_create = None"
  shows "\<exists>m. follow_create env s a b = (Inl (JsError m), s) \<and> classified_unique (JsError m)"
  using assms includes_pair includes_id
  by (simp add: follow_create_def classified_unique_def)

lemma lookups_found:
  assumes "lookup_user s a \<noteq> None" and "lookup_user s b \<noteq> None"
    and "fault env (User_findUnique a) = None" and "fault env (User_findUnique b) = None"
  shows "\<exists>ua ub. Promise_all (user_findUnique env s a) (user_findUnique env s b)
                    = Inr (Some ua, Some ub)"
  using assms by (auto simp: Promise_all_def user_findUnique_def)

lemma followUser_duplicate:
  assumes "a \<noteq> b" "lookup_user s a \<noteq> None" "lookup_user s b \<noteq> None"
    "fault env (User_findUnique a) = None" "fault env (User_findUnique b) = None"
    "lookup_edge s a b \<noteq> None" "fault env Follow_create = None"
  shows "followUser env s \<lparr>req_followerId = a, req_followeeId = b\<rparr> = (Inl duplicate_follow, s)"
proof -
  from lookups_found [OF assms(2,3,4,5)] obtain ua ub
    where look: "Promise_all (user_findUnique env s a) (user_findUnique env s b)
                   = Inr (Some ua, Some ub)"
    by blast
  from follow_create_duplicate [OF assms(1,6,7)] obtain m
    where c: "follow_create env s a b = (Inl (JsError m), s)"
      and u: "classified_unique (JsError m)"
    by blast
  from u have "str_includes m ''Unique constraint failed''"
    by (simp add: classified_unique_def)
  with assms(1) c show ?thesis
    by (simp add: followUser_def look error_defs)
qed

lemma followUser_rethrows:
  assumes "a \<noteq> b" "lookup_user s a \<noteq> None" "lookup_user s b \<noteq> None"
    "fault env (User_findUnique a) = None" "fault env (User_findUnique b) = None"
    "fst (follow_create env s a b) = Inl e"
    "\<not> classified_unique e"
  shows "followUser env s \<lparr>req_followerId = a, req_followeeId = b\<rparr> = (Inl e, s)
       \<and> (\<exists>m. e = JsError m)"
proof -
  obtain r s' where c: "follow_create env s a b = (r, s')"
    by (cases "follow_create env s a b")
  with assms(6) have r: "r = Inl e" by simp
  from follow_create_cases [OF c] r have s': "s' = s" and js: "\<exists>m. e = JsError m"
    by simp_all
  from lookups_found [OF assms(2,3,4,5)] obtain ua ub
    where look: "Promise_all (user_findUnique env s a) (user_findUnique env s b)
                   = Inr (Some ua, Some ub)"
    by blast
  from js obtain m where m: "e = JsError m" by blast
  with assms(7) have "\<not> str_includes m ''Unique constraint failed''"
    by (simp add: classified_unique_def)
  then have "followUser env s \<lparr>req_followerId = a, req_followeeId = b\<rparr> = (Inl e, s)"
    using assms(1) c r s' m by (simp add: followUser_def look)
  with js show ?thesis by simp
qed

lemma followUser_success:
  assumes "followUser env s \<lparr>req_followerId = a, req_followeeId = b\<rparr> = (Inr i, s1)"
  shows "a \<noteq> b \<and> lookup_user s a \<noteq> None \<and> lookup_user s b \<noteq> None
       \<and> lookup_edge s a b = None \<and> lookup_edge_id s i = None
       \<and> s1 = s\<lparr>follows := follows s @
                 [\<lparr>follow_id = i, followerId = a, followeeId = b, createdAt = now env\<rparr>]\<rparr>"
  using assms unfolding followUser_def Let_def Promise_all_def
  by (auto split: if_splits sum.splits option.splits prod.splits dest!: follow_create_cases)

text \<open>With both users there, no edge yet, a fresh identifier and the store up, Follow succeeds.\<close>

lemma followUser_succeeds:
  assumes "a \<noteq> b" "lookup_user s a \<noteq> None" "lookup_user s b \<noteq> None"
    "fault env (User_findUnique a) = None" "fault env (User_findUnique b) = None"
    "lookup_edge s a b = None" "lookup_edge_id s (new_id env) = None"
    "fault env Follow_create = None"
  shows "followUser env s \<lparr>req_followerId = a, req_followeeId = b\<rparr> =
           (Inr (new_id env),
            s\<lparr>follows := follows s @
                 [\<lparr>follow_id = new_id env, followerId = a, followeeId = b,
                   createdAt = now env\<rparr>]\<rparr>)"
proof -
  from lookups_found [OF assms(2,3,4,5)] obtain ua ub
    where look: "Promise_all (user_findUnique env s a) (user_findUnique env s b)
                   = Inr (Some ua, Some ub)"
    by blast
  from assms(2,3) obtain x y where "lookup_user s a = Some x" "lookup_user s b = Some y"
    by blast
  with assms(1,6,7,8) show ?thesis
    by (simp add: followUser_def look follow_create_def Let_def)
qed

lemma followUser_outcome:
  assumes "followUser env s request = (r, s')"
  shows "case r of
            Inl e \<Rightarrow> s' = s
          | Inr i \<Rightarrow>
              lookup_edge_id s i = None \<and>
              s' = s\<lparr>follows := follows s @
                     [\<lparr>follow_id = i, followerId = req_followerId request,
                       followeeId = req_followeeId request, createdAt = now env\<rparr>]\<rparr>"
  using assms unfolding followUser_def Let_def Promise_all_def
  by (auto split: if_splits sum.splits option.splits prod.splits
      dest!: follow_create_cases)

lemma find_None_notin: "find (\<lambda>f. k f = v) xs = None \<Longrightarrow> v \<notin> k ` set xs"
  by (auto simp: find_None_iff)

text \<open>Follow and Unfollow keep the constraints of the schema.\<close>

lemma store_ok_followUser:
  assumes "store_ok s"
    and "followUser env s \<lparr>req_followerId = a, req_followeeId = b\<rparr> = (r, s')"
  shows "store_ok s'"
proof (cases r)
  case (Inl e)
  with followUser_outcome [OF assms(2)] assms(1) show ?thesis by simp
next
  case (Inr i)
  with assms(2)
  have ok: "followUser env s \<lparr>req_followerId = a, req_followeeId = b\<rparr> = (Inr i, s')"
    by simp
  let ?row = "\<lparr>follow_id = i, followerId = a, followeeId = b, createdAt = now env\<rparr>"
  from followUser_success [OF ok]
  have ne: "a \<noteq> b" and ua: "lookup_user s a \<noteq> None" and ub: "lookup_user s b \<noteq> None"
    and absent: "lookup_edge s a b = None" and fresh: "lookup_edge_id s i = None"
    and s': "s' = s\<lparr>follows := follows s @ [?row]\<rparr>"
    by simp_all
  from fresh have f1: "i \<notin> follow_id ` set (follows s)"
    unfolding lookup_edge_id_def by (rule find_None_notin)
  from absent
  have "find (\<lambda>f. (followerId f, followeeId f) = (a, b)) (follows s) = None"
    by (simp add: lookup_edge_def)
  then have f2: "(a, b) \<notin> (\<lambda>f. (followerId f, followeeId f)) ` set (follows s)"
    by (rule find_None_notin)
  have lu: "lookup_user s' = lookup_user s"
    by (simp add: s' lookup_user_def fun_eq_iff)
  from assms(1) f1 f2 ne ua ub show ?thesis
    unfolding store_ok_def lu by (simp add: s')
qed

lemma store_ok_unfollowUser:
  assumes "store_ok s" and "unfollowUser env s request = (r, s')"
  shows "store_ok s'"
proof -
  from assms(2)
  have "s' = s \<or> (\<exists>i. s' = s\<lparr>follows := filter (\<lambda>f. follow_id f \<noteq> i) (follows s)\<rparr>)"
    by (auto simp: unfollowUser_def follow_findUnique_def follow_delete_def Let_def
        split: option.splits sum.splits prod.splits if_splits)
  then show ?thesis
  proof
    assume "s' = s"
    with assms(1) show ?thesis by simp
  next
    assume "\<exists>i. s' = s\<lparr>follows := filter (\<lambda>f. follow_id f \<noteq> i) (follows s)\<rparr>"
    then obtain i
      where s': "s' = s\<lparr>follows := filter (\<lambda>f. follow_id f \<noteq> i) (follows s)\<rparr>"
      by blast
    have lu: "lookup_user s' = lookup_user s"
      by (simp add: s' lookup_user_def fun_eq_iff)
    from assms(1) show ?thesis
      unfolding store_ok_def lu
      by (auto simp: s' distinct_map_filter list_all_iff)
  qed
qed

lemma sorted_order_createdAt_desc:
  "sorted_wrt (\<lambda>x y. createdAt y \<le> createdAt x) (order_createdAt_desc env rows)"
proof -
  have "sorted (map (\<lambda>f. - int (createdAt f)) (order_createdAt_desc env rows))"
    unfolding order_createdAt_desc_def by (rule sorted_sort_key)
  then show ?thesis by (simp add: sorted_map)
qed

lemma mset_order_createdAt_desc: "mset (order_createdAt_desc env rows) = mset rows"
  by (simp add: order_createdAt_desc_def)

lemma set_order_createdAt_desc: "set (order_createdAt_desc env rows) = set rows"
  by (simp add: order_createdAt_desc_def)

lemma include_user_ok:
  "list_all (\<lambda>f. lookup_user s (rel f) \<noteq> None) fs \<Longrightarrow>
     \<exists>rs. include_user s rel fs = Inr rs
         \<and> map fst rs = fs
         \<and> map Some (map snd rs)
               = map (\<lambda>f. map_option select_user (lookup_user s (rel f))) fs"
  by (induction fs) auto

lemma page_rows_subset:
  "set (take n (drop k (order_createdAt_desc env (filter P rows)))) \<subseteq> set rows"
proof -
  have "set (take n (drop k (order_createdAt_desc env (filter P rows))))
          \<subseteq> set (order_createdAt_desc env (filter P rows))"
    by (meson set_take_subset set_drop_subset subset_trans)
  then show ?thesis by (auto simp: set_order_createdAt_desc)
qed

subsection \<open>The sample stores\<close>

lemma calm_no_fault: "fault calm c = None"
  by (simp add: calm_def no_fault_def)

lemma store_ok_seeded: "store_ok seeded"
  by (simp add: store_ok_def lookup_user_def sample_defs)

lemma store_ok_with_ab: "store_ok with_ab"
  by (simp add: store_ok_def lookup_user_def sample_defs)

lemma store_ok_tied: "store_ok tied"
  by (simp add: store_ok_def lookup_user_def tied_defs sample_defs)

lemma follow_fresh:
  "followUser calm seeded \<lparr>req_followerId = aid, req_followeeId = bid\<rparr>
     = (Inr (new_id calm), followed)"
  by (simp add: service_defs sample_defs)

lemma follow_again:
  "followUser calm with_ab \<lparr>req_followerId = aid, req_followeeId = bid\<rparr>
     = (Inl duplicate_follow, with_ab)"
  by (simp add: service_defs error_defs sample_defs)

section \<open>Follow\<close>

text \<open>
  C2. For every user identifier \<open>a\<close>, on every store and whatever the store would
  answer, Follow(a, a) fails with the self-follow error (status 400, code
  \<open>SELF_FOLLOW\<close>) and the store after the call is the store before it.
\<close>

theorem self_follow_rejected:
  "followUser env s \<lparr>req_followerId = a, req_followeeId = a\<rparr> = (Inl self_follow, s)"
  by (simp add: followUser_def error_defs)

theorem self_follow_rejected_witness:
  "followUser calm with_ab \<lparr>req_followerId = aid, req_followeeId = aid\<rparr>
     = (Inl self_follow, with_ab)"
  by (rule self_follow_rejected)

text \<open>
  C3. For distinct source and target, with the two existence lookups answered by the
  store: if the source user does not exist, Follow fails with status 404, code
  \<open>USER_NOT_FOUND\<close> and the message "Follower user not found"; if the source exists
  and the target does not, it fails with the same status and code and the message
  "Followee user not found". In both cases the store is unchanged, so no edge is
  created.
\<close>

theorem follow_missing_user_not_found:
  assumes "a \<noteq> b"
    and "fault env (User_findUnique a) = None"
    and "fault env (User_findUnique b) = None"
  shows "(lookup_user s a = None \<longrightarrow>
            followUser env s \<lparr>req_followerId = a, req_followeeId = b\<rparr>
              = (Inl follower_not_found, s))
       \<and> (lookup_user s a \<noteq> None \<and> lookup_user s b = None \<longrightarrow>
            followUser env s \<lparr>req_followerId = a, req_followeeId = b\<rparr>
              = (Inl followee_not_found, s))"
  using assms
  by (simp add: followUser_def Promise_all_def user_findUnique_def error_defs)

theorem follow_missing_user_not_found_witness:
  "ghost \<noteq> aid \<and> fault calm (User_findUnique ghost) = None
   \<and> fault calm (User_findUnique aid) = None
   \<and> lookup_user seeded ghost = None \<and> lookup_user seeded aid \<noteq> None
   \<and> followUser calm seeded \<lparr>req_followerId = ghost, req_followeeId = aid\<rparr>
        = (Inl follower_not_found, seeded)
   \<and> followUser calm seeded \<lparr>req_followerId = aid, req_followeeId = ghost\<rparr>
        = (Inl followee_not_found, seeded)"
proof -
  have h1: "ghost \<noteq> aid" and h1': "aid \<noteq> ghost" by (simp_all add: sample_defs)
  have h2: "fault calm (User_findUnique ghost) = None" by (rule calm_no_fault)
  have h3: "fault calm (User_findUnique aid) = None" by (rule calm_no_fault)
  have h4: "lookup_user seeded ghost = None" by (simp add: lookup_user_def sample_defs)
  have h5: "lookup_user seeded aid \<noteq> None" by (simp add: lookup_user_def sample_defs)
  have r1: "followUser calm seeded \<lparr>req_followerId = ghost, req_followeeId = aid\<rparr>
              = (Inl follower_not_found, seeded)"
    by (rule mp [OF conjunct1 [OF follow_missing_user_not_found [OF h1 h2 h3]] h4])
  have r2: "followUser calm seeded \<lparr>req_followerId = aid, req_followeeId = ghost\<rparr>
              = (Inl followee_not_found, seeded)"
    by (rule mp [OF conjunct2 [OF follow_missing_user_not_found [OF h1' h3 h2]]
          conjI [OF h5 h4]])
  show ?thesis by (intro conjI h1 h2 h3 h4 h5 r1 r2)
qed

text \<open>
  C1. Let A and B be distinct existing users, with the existence lookups answered by
  the store. If the edge (A, B) is present in a store that satisfies the schema and
  the insert reaches the store, then the store rejects the insert with a message that
  contains "Unique constraint failed", Follow(A, B) fails with status 409 and code
  \<open>DUPLICATE_FOLLOW\<close>, the store is unchanged, and it holds exactly one edge (A, B).
  And whenever the insert fails with an error that the catch block does not take for
  the unique-constraint violation, the HTTP answer is status 500 with code
  \<open>INTERNAL_ERROR\<close> and the message "Internal server error", never a success, and
  the store is unchanged.
\<close>

theorem follow_twice_duplicate_else_internal:
  assumes "a \<noteq> b" "lookup_user s a \<noteq> None" "lookup_user s b \<noteq> None"
    "fault env (User_findUnique a) = None" "fault env (User_findUnique b) = None"
  shows "(store_ok s \<and> lookup_edge s a b \<noteq> None \<and> fault env Follow_create = None \<longrightarrow>
            (\<exists>m. follow_create env s a b = (Inl (JsError m), s)
                 \<and> classified_unique (JsError m))
            \<and> followUser env s \<lparr>req_followerId = a, req_followeeId = b\<rparr>
                = (Inl duplicate_follow, s)
            \<and> length (edges_between s a b) = 1)
       \<and> (\<forall>e. fst (follow_create env s a b) = Inl e \<and> \<not> classified_unique e \<longrightarrow>
            follow_controller env s (Inr \<lparr>req_followerId = a, req_followeeId = b\<rparr>)
              = (generic_500, s))"
proof (intro conjI allI impI)
  assume h: "store_ok s \<and> lookup_edge s a b \<noteq> None \<and> fault env Follow_create = None"
  with assms(1)
  show "\<exists>m. follow_create env s a b = (Inl (JsError m), s) \<and> classified_unique (JsError m)"
    by (simp add: follow_create_duplicate)
  from h assms
  show "followUser env s \<lparr>req_followerId = a, req_followeeId = b\<rparr> = (Inl duplicate_follow, s)"
    by (simp add: followUser_duplicate)
  from h show "length (edges_between s a b) = 1"
    by (simp add: edge_count_one)
next
  fix e
  assume h: "fst (follow_create env s a b) = Inl e \<and> \<not> classified_unique e"
  with assms
  have "followUser env s \<lparr>req_followerId = a, req_followeeId = b\<rparr> = (Inl e, s)
          \<and> (\<exists>m. e = JsError m)"
    by (intro followUser_rethrows) simp_all
  then show "follow_controller env s (Inr \<lparr>req_followerId = a, req_followeeId = b\<rparr>)
               = (generic_500, s)"
    by (auto simp: follow_controller_def asyncHandler_def generic_500_def)
qed

theorem follow_twice_duplicate_else_internal_witness:
  "aid \<noteq> bid \<and> lookup_user with_ab aid \<noteq> None \<and> lookup_user with_ab bid \<noteq> None
   \<and> fault calm (User_findUnique aid) = None \<and> fault calm (User_findUnique bid) = None
   \<and> store_ok with_ab \<and> lookup_edge with_ab aid bid \<noteq> None
   \<and> fault calm Follow_create = None
   \<and> followUser calm with_ab \<lparr>req_followerId = aid, req_followeeId = bid\<rparr>
        = (Inl duplicate_follow, with_ab)
   \<and> length (edges_between with_ab aid bid) = 1
   \<and> fault (write_outage terminated) (User_findUnique aid) = None
   \<and> fault (write_outage terminated) (User_findUnique bid) = None
   \<and> fst (follow_create (write_outage terminated) with_ab aid bid)
        = Inl (JsError terminated)
   \<and> \<not> classified_unique (JsError terminated)
   \<and> follow_controller (write_outage terminated) with_ab
        (Inr \<lparr>req_followerId = aid, req_followeeId = bid\<rparr>) = (generic_500, with_ab)"
proof -
  let ?w = "write_outage terminated"
  have h1: "aid \<noteq> bid" by (simp add: sample_defs)
  have h2: "lookup_user with_ab aid \<noteq> None" by (simp add: lookup_user_def sample_defs)
  have h3: "lookup_user with_ab bid \<noteq> None" by (simp add: lookup_user_def sample_defs)
  have h4: "fault calm (User_findUnique aid) = None" by (rule calm_no_fault)
  have h5: "fault calm (User_findUnique bid) = None" by (rule calm_no_fault)
  have h6: "store_ok with_ab" by (rule store_ok_with_ab)
  have h7: "lookup_edge with_ab aid bid \<noteq> None" by (simp add: lookup_edge_def sample_defs)
  have h8: "fault calm Follow_create = None" by (rule calm_no_fault)
  have w4: "fault ?w (User_findUnique aid) = None" by (simp add: write_outage_def)
  have w5: "fault ?w (User_findUnique bid) = None" by (simp add: write_outage_def)
  have w6: "fst (follow_create ?w with_ab aid bid) = Inl (JsError terminated)"
    by (simp add: follow_create_def write_outage_def)
  have w7: "\<not> classified_unique (JsError terminated)"
    by (simp add: classified_unique_def terminated_def)
  have a: "(\<exists>m. follow_create calm with_ab aid bid = (Inl (JsError m), with_ab)
               \<and> classified_unique (JsError m))
         \<and> followUser calm with_ab \<lparr>req_followerId = aid, req_followeeId = bid\<rparr>
             = (Inl duplicate_follow, with_ab)
         \<and> length (edges_between with_ab aid bid) = 1"
    by (rule mp [OF conjunct1 [OF follow_twice_duplicate_else_internal [OF h1 h2 h3 h4 h5]]])
       (intro conjI h6 h7 h8)
  have r1: "followUser calm with_ab \<lparr>req_followerId = aid, req_followeeId = bid\<rparr>
              = (Inl duplicate_follow, with_ab)"
    by (rule conjunct1 [OF conjunct2 [OF a]])
  have r2: "length (edges_between with_ab aid bid) = 1"
    by (rule conjunct2 [OF conjunct2 [OF a]])
  have r3: "follow_controller ?w with_ab (Inr \<lparr>req_followerId = aid, req_followeeId = bid\<rparr>)
              = (generic_500, with_ab)"
    by (rule mp [OF spec [OF conjunct2
            [OF follow_twice_duplicate_else_internal [OF h1 h2 h3 w4 w5]]],
          of "JsError terminated"])
       (intro conjI w6 w7)
  show ?thesis by (intro conjI h1 h2 h3 h4 h5 h6 h7 h8 r1 r2 w4 w5 w6 w7 r3)
qed

text \<open>
  C9. However Follow(source, target) ends: if it ends with an error, whichever it is,
  the store is what it was before the call; if it returns an identifier, no edge had
  that identifier before and the store is the old one with exactly one more edge,
  from source to target, carrying the returned identifier. So the edges have changed
  if and only if the call returned successfully.
\<close>

theorem followUser_persists_iff_success:
  assumes "followUser env s request = (r, s')"
  shows "(case r of
            Inl e \<Rightarrow> s' = s
          | Inr i \<Rightarrow>
              lookup_edge_id s i = None \<and>
              s' = s\<lparr>follows := follows s @
                     [\<lparr>follow_id = i, followerId = req_followerId request,
                       followeeId = req_followeeId request, createdAt = now env\<rparr>]\<rparr>)
       \<and> ((follows s' \<noteq> follows s) = (\<exists>i. r = Inr i))"
proof -
  have main: "case r of
            Inl e \<Rightarrow> s' = s
          | Inr i \<Rightarrow>
              lookup_edge_id s i = None \<and>
              s' = s\<lparr>follows := follows s @
                     [\<lparr>follow_id = i, followerId = req_followerId request,
                       followeeId = req_followeeId request, createdAt = now env\<rparr>]\<rparr>"
    using assms by (rule followUser_outcome)
  then have "(follows s' \<noteq> follows s) = (\<exists>i. r = Inr i)"
    by (cases r) auto
  with main show ?thesis by simp
qed

theorem followUser_persists_iff_success_witness:
  "followUser calm seeded \<lparr>req_followerId = aid, req_followeeId = bid\<rparr>
     = (Inr (new_id calm), followed)
   \<and> lookup_edge_id seeded (new_id calm) = None
   \<and> followed = seeded\<lparr>follows := follows seeded @ [edge_new]\<rparr>
   \<and> follows followed \<noteq> follows seeded"
proof -
  have h: "followUser calm seeded \<lparr>req_followerId = aid, req_followeeId = bid\<rparr>
             = (Inr (new_id calm), followed)"
    by (rule follow_fresh)
  note r = followUser_persists_iff_success [OF h]
  from r have a: "lookup_edge_id seeded (new_id calm) = None"
    by simp
  from r have b: "followed = seeded\<lparr>follows := follows seeded @ [edge_new]\<rparr>"
    by (simp add: edge_new_def)
  from r have c: "follows followed \<noteq> follows seeded"
    by simp
  show ?thesis by (intro conjI h a b c)
qed

section \<open>Unfollow\<close>

text \<open>
  C4. For every pair (source, target), with the lookup answered by the store:
  Unfollow looks the edge up by the pair. If there is none, it fails with status 404
  and code \<open>FOLLOW_NOT_FOUND\<close> and the store is unchanged. If the lookup finds an
  edge and the delete reaches the store, Unfollow succeeds and the store has lost the
  rows whose identifier is that of the edge found; identifiers being unique, this is
  that one edge and no other.
\<close>

theorem unfollow_by_pair_then_by_id:
  assumes "fault env Follow_findUnique = None"
  shows "(lookup_edge s a b = None \<longrightarrow>
            unfollowUser env s \<lparr>req_followerId = a, req_followeeId = b\<rparr>
              = (Inl follow_not_found, s))
       \<and> (\<forall>row. lookup_edge s a b = Some row \<and> fault env Follow_delete = None \<longrightarrow>
            unfollowUser env s \<lparr>req_followerId = a, req_followeeId = b\<rparr>
              = (Inr (), s\<lparr>follows := filter (\<lambda>f. follow_id f \<noteq> follow_id row)
                                          (follows s)\<rparr>)
            \<and> (distinct (map follow_id (follows s)) \<longrightarrow>
                 filter (\<lambda>f. follow_id f \<noteq> follow_id row) (follows s)
                   = remove1 row (follows s)))"
proof (intro conjI allI impI)
  assume "lookup_edge s a b = None"
  with assms
  show "unfollowUser env s \<lparr>req_followerId = a, req_followeeId = b\<rparr>
          = (Inl follow_not_found, s)"
    by (simp add: unfollowUser_def follow_findUnique_def error_defs)
next
  fix row
  assume h: "lookup_edge s a b = Some row \<and> fault env Follow_delete = None"
  then have "find (\<lambda>f. followerId f = a \<and> followeeId f = b) (follows s) = Some row"
    by (simp add: lookup_edge_def)
  from find_Some_mem [OF this] have mem: "row \<in> set (follows s)"
    by simp
  then have "find (\<lambda>f. follow_id f = follow_id row) (follows s) \<noteq> None"
    by (auto simp: find_None_iff)
  then obtain r where "lookup_edge_id s (follow_id row) = Some r"
    by (auto simp: lookup_edge_id_def)
  with h assms
  show "unfollowUser env s \<lparr>req_followerId = a, req_followeeId = b\<rparr>
          = (Inr (), s\<lparr>follows := filter (\<lambda>f. follow_id f \<noteq> follow_id row)
                                      (follows s)\<rparr>)"
    by (simp add: unfollowUser_def follow_findUnique_def follow_delete_def)
  assume "distinct (map follow_id (follows s))"
  then show "filter (\<lambda>f. follow_id f \<noteq> follow_id row) (follows s) = remove1 row (follows s)"
    using mem by (rule filter_key_remove1)
qed

theorem unfollow_by_pair_then_by_id_witness:
  "fault calm Follow_findUnique = None \<and> fault calm Follow_delete = None
   \<and> lookup_edge seeded aid bid = None
   \<and> unfollowUser calm seeded \<lparr>req_followerId = aid, req_followeeId = bid\<rparr>
        = (Inl follow_not_found, seeded)
   \<and> lookup_edge with_ab aid bid = Some edge_ab
   \<and> distinct (map follow_id (follows with_ab))
   \<and> unfollowUser calm with_ab \<lparr>req_followerId = aid, req_followeeId = bid\<rparr>
        = (Inr (), with_ab\<lparr>follows := filter (\<lambda>f. follow_id f \<noteq> follow_id edge_ab)
                                          (follows with_ab)\<rparr>)
   \<and> filter (\<lambda>f. follow_id f \<noteq> follow_id edge_ab) (follows with_ab)
        = remove1 edge_ab (follows with_ab)
   \<and> remove1 edge_ab (follows with_ab) = []"
proof -
  have h1: "fault calm Follow_findUnique = None" by (rule calm_no_fault)
  have h2: "fault calm Follow_delete = None" by (rule calm_no_fault)
  have h3: "lookup_edge seeded aid bid = None" by (simp add: lookup_edge_def seeded_def)
  have h4: "lookup_edge with_ab aid bid = Some edge_ab"
    by (simp add: lookup_edge_def with_ab_def edge_ab_def)
  have h5: "distinct (map follow_id (follows with_ab))" by (simp add: with_ab_def)
  have r1: "unfollowUser calm seeded \<lparr>req_followerId = aid, req_followeeId = bid\<rparr>
              = (Inl follow_not_found, seeded)"
    by (rule mp [OF conjunct1 [OF unfollow_by_pair_then_by_id [OF h1]] h3])
  have r: "unfollowUser calm with_ab \<lparr>req_followerId = aid, req_followeeId = bid\<rparr>
             = (Inr (), with_ab\<lparr>follows := filter (\<lambda>f. follow_id f \<noteq> follow_id edge_ab)
                                               (follows with_ab)\<rparr>)
         \<and> (distinct (map follow_id (follows with_ab)) \<longrightarrow>
              filter (\<lambda>f. follow_id f \<noteq> follow_id edge_ab) (follows with_ab)
                = remove1 edge_ab (follows with_ab))"
    by (rule mp [OF spec [OF conjunct2 [OF unfollow_by_pair_then_by_id [OF h1]]]
          conjI [OF h4 h2]])
  have r2: "unfollowUser calm with_ab \<lparr>req_followerId = aid, req_followeeId = bid\<rparr>
              = (Inr (), with_ab\<lparr>follows := filter (\<lambda>f. follow_id f \<noteq> follow_id edge_ab)
                                                (follows with_ab)\<rparr>)"
    by (rule conjunct1 [OF r])
  have r3: "filter (\<lambda>f. follow_id f \<noteq> follow_id edge_ab) (follows with_ab)
              = remove1 edge_ab (follows with_ab)"
    by (rule mp [OF conjunct2 [OF r] h5])
  have r4: "remove1 edge_ab (follows with_ab) = []" by (simp add: with_ab_def)
  show ?thesis by (intro conjI h1 h2 h3 r1 h4 h5 r2 r3 r4)
qed

section \<open>Follow, IsFollowing, Unfollow together\<close>

text \<open>
  C5. Suppose Follow(A, B) succeeds on a store \<open>s\<close> and leaves \<open>s1\<close> (which it only
  does for existing users A \<noteq> B with no edge (A, B) before). With the later calls
  answered by the store: IsFollowing(A, B) on \<open>s1\<close> is true; Unfollow(A, B) on
  \<open>s1\<close> succeeds and gives back the store \<open>s\<close>; and IsFollowing(A, B) is false
  there.
\<close>

theorem follow_unfollow_round_trip:
  assumes ok: "followUser env1 s \<lparr>req_followerId = a, req_followeeId = b\<rparr> = (Inr i, s1)"
    and f2: "fault env2 Follow_findUnique = None"
    and f3: "fault env3 Follow_findUnique = None" "fault env3 Follow_delete = None"
    and f4: "fault env4 Follow_findUnique = None"
  shows "isFollowing env2 s1 a b = (Inr True, s1)
       \<and> unfollowUser env3 s1 \<lparr>req_followerId = a, req_followeeId = b\<rparr> = (Inr (), s)
       \<and> isFollowing env4 s a b = (Inr False, s)
       \<and> a \<noteq> b \<and> lookup_user s a \<noteq> None \<and> lookup_user s b \<noteq> None
       \<and> lookup_edge s a b = None"
proof -
  let ?row = "\<lparr>follow_id = i, followerId = a, followeeId = b, createdAt = now env1\<rparr>"
  note pre = followUser_success [OF ok]
  from pre have absent: "lookup_edge s a b = None" and fresh: "lookup_edge_id s i = None"
    and s1: "s1 = s\<lparr>follows := follows s @ [?row]\<rparr>"
    by simp_all
  have e1: "lookup_edge s1 a b = Some ?row"
    using absent by (simp add: s1 lookup_edge_def find_append_None)
  have d1: "lookup_edge_id s1 i = Some ?row"
    using fresh by (simp add: s1 lookup_edge_id_def find_append_None)
  have rest: "filter (\<lambda>f. follow_id f \<noteq> i) (follows s1) = follows s"
    using fresh by (simp add: s1 lookup_edge_id_def find_None_filter_id)
  have "isFollowing env2 s1 a b = (Inr True, s1)"
    using f2 e1 by (simp add: isFollowing_def follow_findUnique_def)
  moreover
  have "unfollowUser env3 s1 \<lparr>req_followerId = a, req_followeeId = b\<rparr> = (Inr (), s)"
    using f3 e1 d1 rest
    by (simp add: unfollowUser_def follow_findUnique_def follow_delete_def s1)
  moreover have "isFollowing env4 s a b = (Inr False, s)"
    using f4 absent by (simp add: isFollowing_def follow_findUnique_def)
  ultimately show ?thesis using pre by simp
qed

theorem follow_unfollow_round_trip_witness:
  "followUser calm seeded \<lparr>req_followerId = aid, req_followeeId = bid\<rparr>
     = (Inr (new_id calm), followed)
   \<and> fault calm Follow_findUnique = None \<and> fault calm Follow_delete = None
   \<and> isFollowing calm followed aid bid = (Inr True, followed)
   \<and> unfollowUser calm followed \<lparr>req_followerId = aid, req_followeeId = bid\<rparr>
        = (Inr (), seeded)
   \<and> isFollowing calm seeded aid bid = (Inr False, seeded)"
proof -
  have h1: "followUser calm seeded \<lparr>req_followerId = aid, req_followeeId = bid\<rparr>
              = (Inr (new_id calm), followed)"
    by (rule follow_fresh)
  have h2: "fault calm Follow_findUnique = None" by (rule calm_no_fault)
  have h3: "fault calm Follow_delete = None" by (rule calm_no_fault)
  note r = follow_unfollow_round_trip [OF h1 h2 h2 h3 h2]
  show ?thesis
    by (intro conjI h1 h2 h3 conjunct1 [OF r] conjunct1 [OF conjunct2 [OF r]]
          conjunct1 [OF conjunct2 [OF conjunct2 [OF r]]])
qed

section \<open>Reads\<close>

text \<open>
  C6, as the code has it. For an existing user U on a store that satisfies the schema,
  with the three store calls answered: ListFollowers(U, limit, offset) succeeds and
  leaves the store unchanged; \<open>total\<close> is the number of edges whose target is U,
  whatever the pagination; the items are the follower users of the rows that
  \<open>take limit (drop offset ...)\<close> cuts out of the edges to U put in order of
  creation time, newest first, so there are at most \<open>limit\<close> of them. The query
  names no second sort key: among edges created at the same tick the order is the one
  the store picks for that query.
\<close>

theorem getFollowers_page:
  assumes ok: "store_ok s"
    and u: "lookup_user s u \<noteq> None"
    and f: "fault env (User_findUnique u) = None" "fault env Follow_count = None"
           "fault env Follow_findMany = None"
  shows "\<exists>its. getFollowers env s u p =
              (Inr \<lparr>total = length (followers_of s u), items = its\<rparr>, s)
          \<and> map Some its =
              map (\<lambda>f. map_option select_user (lookup_user s (followerId f)))
                (take (limit p) (drop (offset p)
                   (order_createdAt_desc env (followers_of s u))))
          \<and> length its \<le> limit p
          \<and> sorted_wrt (\<lambda>x y. createdAt y \<le> createdAt x)
               (order_createdAt_desc env (followers_of s u))
          \<and> mset (order_createdAt_desc env (followers_of s u)) = mset (followers_of s u)"
proof -
  let ?rows = "take (limit p) (drop (offset p) (order_createdAt_desc env (followers_of s u)))"
  from ok have "list_all (\<lambda>f. lookup_user s (followerId f) \<noteq> None) (follows s)"
    by (simp add: store_ok_def)
  moreover have "set ?rows \<subseteq> set (follows s)"
    unfolding followers_of_def by (rule page_rows_subset)
  ultimately have "list_all (\<lambda>f. lookup_user s (followerId f) \<noteq> None) ?rows"
    by (auto simp: list_all_iff)
  from include_user_ok [OF this] obtain rs where
    inc: "include_user s followerId ?rows = Inr rs"
    and rs: "map Some (map snd rs) =
                map (\<lambda>f. map_option select_user (lookup_user s (followerId f))) ?rows"
    by blast
  define its where "its = map snd rs"
  from rs have its: "map Some its =
                map (\<lambda>f. map_option select_user (lookup_user s (followerId f))) ?rows"
    by (simp only: its_def)
  from u obtain usr where usr: "lookup_user s u = Some usr" by blast
  have res: "getFollowers env s u p =
               (Inr \<lparr>total = length (followers_of s u), items = its\<rparr>, s)"
    using f usr inc
    by (simp add: getFollowers_def user_findUnique_def Promise_all_def follow_count_def
        follow_findMany_def followers_of_def its_def)
  have "length (map Some its) = length ?rows" by (simp only: its length_map)
  then have len: "length its \<le> limit p" by simp
  from res its len sorted_order_createdAt_desc mset_order_createdAt_desc
  show ?thesis by blast
qed

theorem getFollowers_page_witness:
  "store_ok tied \<and> lookup_user tied cid \<noteq> None
   \<and> fault env_bc_first (User_findUnique cid) = None
   \<and> fault env_bc_first Follow_count = None
   \<and> fault env_bc_first Follow_findMany = None
   \<and> (\<exists>its. getFollowers env_bc_first tied cid second_page =
              (Inr \<lparr>total = length (followers_of tied cid), items = its\<rparr>, tied)
          \<and> map Some its =
              map (\<lambda>f. map_option select_user (lookup_user tied (followerId f)))
                (take (limit second_page) (drop (offset second_page)
                   (order_createdAt_desc env_bc_first (followers_of tied cid))))
          \<and> length its \<le> limit second_page
          \<and> sorted_wrt (\<lambda>x y. createdAt y \<le> createdAt x)
               (order_createdAt_desc env_bc_first (followers_of tied cid))
          \<and> mset (order_createdAt_desc env_bc_first (followers_of tied cid))
               = mset (followers_of tied cid))"
proof -
  have h1: "store_ok tied" by (rule store_ok_tied)
  have h2: "lookup_user tied cid \<noteq> None"
    by (simp add: lookup_user_def tied_defs sample_defs)
  have h3: "fault env_bc_first (User_findUnique cid) = None"
    by (simp add: env_bc_first_def calm_def no_fault_def)
  have h4: "fault env_bc_first Follow_count = None"
    by (simp add: env_bc_first_def calm_def no_fault_def)
  have h5: "fault env_bc_first Follow_findMany = None"
    by (simp add: env_bc_first_def calm_def no_fault_def)
  show ?thesis
    by (intro conjI h1 h2 h3 h4 h5 getFollowers_page [OF h1 h2 h3 h4 h5])
qed

text \<open>
  Against C6 as stated: alice and bob follow carol, both edges created at tick 7. Two
  calls on the same store differ only in the order the store gives the two rows. The
  first page (limit 1, offset 0) is alice in one call and bob in the other, and the
  second page (limit 1, offset 1) of that other call is alice again: the pages
  overlap and bob goes missing. Nothing in the query breaks the tie.
\<close>

theorem getFollowers_tie_order_unstable:
  "getFollowers env_ac_first tied cid first_page
     = (Inr \<lparr>total = 2, items = [select_user alice]\<rparr>, tied)
   \<and> getFollowers env_bc_first tied cid first_page
     = (Inr \<lparr>total = 2, items = [select_user bob]\<rparr>, tied)
   \<and> getFollowers env_bc_first tied cid second_page
     = (Inr \<lparr>total = 2, items = [select_user alice]\<rparr>, tied)
   \<and> select_user alice \<noteq> select_user bob
   \<and> createdAt edge_ac = createdAt edge_bc"
  by (simp add: read_defs service_defs tied_defs sample_defs)

text \<open>
  C7, as the code has it. For a user identifier that no user has, with the existence
  lookup answered by the store: ListFollowers, ListFollowing, FollowerCount and
  FollowingCount each fail with status 404 and code \<open>USER_NOT_FOUND\<close>, the store
  unchanged. IsFollowing makes no existence check: on a store that satisfies the
  schema it answers false for such an identifier, as source or as target.
\<close>

theorem reads_of_missing_user:
  assumes "lookup_user s u = None" and "fault env (User_findUnique u) = None"
  shows "getFollowers env s u p = (Inl not_found, s)
       \<and> getFollowing env s u p = (Inl not_found, s)
       \<and> getFollowerCount env s u = (Inl not_found, s)
       \<and> getFollowingCount env s u = (Inl not_found, s)
       \<and> (store_ok s \<and> fault env Follow_findUnique = None \<longrightarrow>
            isFollowing env s u v = (Inr False, s) \<and> isFollowing env s v u = (Inr False, s))"
proof -
  have a: "user_findUnique env s u = Inr None"
    using assms by (simp add: user_findUnique_def)
  have nf: "createError 404 ''User not found'' USER_NOT_FOUND = not_found"
    by (simp add: error_defs)
  have "getFollowers env s u p = (Inl not_found, s)"
    by (simp add: getFollowers_def a nf)
  moreover have "getFollowing env s u p = (Inl not_found, s)"
    by (simp add: getFollowing_def a nf)
  moreover have "getFollowerCount env s u = (Inl not_found, s)"
    by (simp add: getFollowerCount_def a nf)
  moreover have "getFollowingCount env s u = (Inl not_found, s)"
    by (simp add: getFollowingCount_def a nf)
  moreover have "store_ok s \<and> fault env Follow_findUnique = None \<longrightarrow>
            isFollowing env s u v = (Inr False, s) \<and> isFollowing env s v u = (Inr False, s)"
    using no_user_no_edge [OF _ assms(1)]
    by (simp add: isFollowing_def follow_findUnique_def)
  ultimately show ?thesis by (intro conjI)
qed

theorem reads_of_missing_user_witness:
  "lookup_user seeded ghost = None \<and> fault calm (User_findUnique ghost) = None
   \<and> store_ok seeded \<and> fault calm Follow_findUnique = None
   \<and> getFollowers calm seeded ghost first_page = (Inl not_found, seeded)
   \<and> getFollowing calm seeded ghost first_page = (Inl not_found, seeded)
   \<and> getFollowerCount calm seeded ghost = (Inl not_found, seeded)
   \<and> getFollowingCount calm seeded ghost = (Inl not_found, seeded)
   \<and> isFollowing calm seeded ghost aid = (Inr False, seeded)
   \<and> isFollowing calm seeded aid ghost = (Inr False, seeded)"
proof -
  have h1: "lookup_user seeded ghost = None" by (simp add: lookup_user_def sample_defs)
  have h2: "fault calm (User_findUnique ghost) = None" by (rule calm_no_fault)
  have h3: "store_ok seeded" by (rule store_ok_seeded)
  have h4: "fault calm Follow_findUnique = None" by (rule calm_no_fault)
  note r = reads_of_missing_user [OF h1 h2, of first_page aid]
  have r1: "getFollowers calm seeded ghost first_page = (Inl not_found, seeded)"
    by (rule conjunct1 [OF r])
  have r2: "getFollowing calm seeded ghost first_page = (Inl not_found, seeded)"
    by (rule conjunct1 [OF conjunct2 [OF r]])
  have r3: "getFollowerCount calm seeded ghost = (Inl not_found, seeded)"
    by (rule conjunct1 [OF conjunct2 [OF conjunct2 [OF r]]])
  have r4: "getFollowingCount calm seeded ghost = (Inl not_found, seeded)"
    by (rule conjunct1 [OF conjunct2 [OF conjunct2 [OF conjunct2 [OF r]]]])
  have r5: "isFollowing calm seeded ghost aid = (Inr False, seeded)
          \<and> isFollowing calm seeded aid ghost = (Inr False, seeded)"
    by (rule mp [OF conjunct2 [OF conjunct2 [OF conjunct2 [OF conjunct2 [OF r]]]]
          conjI [OF h3 h4]])
  show ?thesis
    by (intro conjI h1 h2 h3 h4 r1 r2 r3 r4 conjunct1 [OF r5] conjunct2 [OF r5])
qed

text \<open>
  Against C7 as stated: no user has the identifier \<open>ghost\<close>, the store answers, and
  IsFollowing does not fail with a not-found error; it returns false, with \<open>ghost\<close>
  as source and as target.
\<close>

theorem isFollowing_missing_user_returns_false:
  "lookup_user seeded ghost = None
   \<and> fault calm Follow_findUnique = None
   \<and> isFollowing calm seeded ghost aid = (Inr False, seeded)
   \<and> isFollowing calm seeded aid ghost = (Inr False, seeded)"
  by (simp add: service_defs sample_defs)

text \<open>
  C10. Each read operation, IsFollowing, ListFollowers, ListFollowing, FollowerCount,
  FollowingCount and ListAllUsers, whatever its arguments, the store it starts from
  and the answers of the store, ends with the users and the edges it started with.
\<close>

theorem reads_leave_store_unchanged:
  "snd (isFollowing env s a b) = s
   \<and> snd (getFollowers env s u p) = s
   \<and> snd (getFollowing env s u p) = s
   \<and> snd (getFollowerCount env s u) = s
   \<and> snd (getFollowingCount env s u) = s
   \<and> snd (getAllUsers env s) = s"
  by (simp add: isFollowing_def getFollowers_def getFollowing_def getFollowerCount_def
      getFollowingCount_def getAllUsers_def split: sum.splits option.splits prod.splits)

theorem reads_leave_store_unchanged_witness:
  "snd (isFollowing calm with_ab aid bid) = with_ab
   \<and> snd (getFollowers calm with_ab bid first_page) = with_ab
   \<and> snd (getFollowing calm with_ab bid first_page) = with_ab
   \<and> snd (getFollowerCount calm with_ab bid) = with_ab
   \<and> snd (getFollowingCount calm with_ab bid) = with_ab
   \<and> snd (getAllUsers calm with_ab) = with_ab"
  by (rule reads_leave_store_unchanged)

section \<open>What a client sees of an internal failure\<close>

text \<open>
  With the store down, every controller but one lets the store's error reach
  \<open>errorHandler\<close>, which answers with the fixed body: status 500, "Internal server
  error", \<open>INTERNAL_ERROR\<close>.
\<close>

lemma other_controllers_generic:
  "a \<noteq> b \<Longrightarrow>
     follow_controller (outage m) s (Inr \<lparr>req_followerId = a, req_followeeId = b\<rparr>)
       = (generic_500, s)"
  "unfollow_controller (outage m) s (Inr r) = (generic_500, s)"
  "getFollowers_controller (outage m) s u (Inr p) = (generic_500, s)"
  "getFollowing_controller (outage m) s u (Inr p) = (generic_500, s)"
  "getFollowerCount_controller (outage m) s u = (generic_500, s)"
  "getFollowingCount_controller (outage m) s u = (generic_500, s)"
  "isFollowing_controller (outage m) s (Some a) (Some b) = (generic_500, s)"
  by (simp_all add: follow_controller_def unfollow_controller_def
      getFollowers_controller_def getFollowing_controller_def
      getFollowerCount_controller_def getFollowingCount_controller_def
      isFollowing_controller_def asyncHandler_def followUser_def unfollowUser_def
      getFollowers_def getFollowing_def getFollowerCount_def getFollowingCount_def
      isFollowing_def Promise_all_def user_findUnique_def follow_findUnique_def
      outage_def generic_500_def Let_def)

text \<open>
  C8. The claim: the body of an answer to an internal failure does not depend on the
  error behind it. The controller of ListAllUsers catches the store's error and puts
  its message into the \<open>AppError\<close> it throws, and \<open>errorHandler\<close> sends the message
  of an \<open>AppError\<close> to the client. Two runs that differ only in the store's error,
  connection refused in one and a failed login in the other, give two different
  bodies, each carrying the store's text; FollowerCount under the same two failures
  gives the fixed body both times.
\<close>

theorem getAllUsers_leaks_store_error:
  "getAllUsers_controller (outage refused) seeded =
     (\<lparr>res_status = 500, res_success = False, res_message = Some refused,
       res_code = Some ''INTERNAL_ERROR'', res_data = None\<rparr>, seeded)
   \<and> getAllUsers_controller (outage auth_failed) seeded =
     (\<lparr>res_status = 500, res_success = False, res_message = Some auth_failed,
       res_code = Some ''INTERNAL_ERROR'', res_data = None\<rparr>, seeded)
   \<and> refused \<noteq> auth_failed
   \<and> getFollowerCount_controller (outage refused) seeded aid = (generic_500, seeded)
   \<and> getFollowerCount_controller (outage auth_failed) seeded aid = (generic_500, seeded)"
  by (simp add: getAllUsers_controller_def getFollowerCount_controller_def asyncHandler_def
      getAllUsers_def getFollowerCount_def user_findMany_def user_findUnique_def outage_def
      error_defs refused_def auth_failed_def generic_500_def)

end
